theory Spec2Isabelle
  imports Complex_Main "HOL-Library.Word" "HOL-Library.Sublist" "HOL-Library.Multiset"
begin

section \<open>JavaScript strings\<close>

text \<open>
  A JavaScript string is a sequence of UTF-16 code units; \<open>length\<close>, \<open>slice\<close> and the
  regular expressions of \<open>chunkText\<close> all work on code units. The function \<open>js\<close> turns
  a Latin-1 literal into such a string (Latin-1 code points are their own code units).
\<close>

type_synonym jschar = "16 word"
type_synonym jsstring = "jschar list"

definition js :: "string \<Rightarrow> jsstring" where
  "js s = map (\<lambda>c. of_nat (of_char c)) s"

text \<open>
  \<open>String.prototype.trim\<close> removes the ECMAScript WhiteSpace and LineTerminator code
  points from both ends: TAB, LF, VT, FF, CR, SP, NBSP, the Unicode space separators,
  LS, PS and the byte order mark.
\<close>

definition isWhiteSpace :: "jschar \<Rightarrow> bool" where
  "isWhiteSpace c \<longleftrightarrow> c \<in> set [0x9, 0xA, 0xB, 0xC, 0xD, 0x20, 0xA0, 0x1680,
      0x2000, 0x2001, 0x2002, 0x2003, 0x2004, 0x2005, 0x2006, 0x2007, 0x2008, 0x2009, 0x200A,
      0x2028, 0x2029, 0x202F, 0x205F, 0x3000, 0xFEFF]"

definition trim :: "jsstring \<Rightarrow> jsstring" where
  "trim s = rev (dropWhile isWhiteSpace (rev (dropWhile isWhiteSpace s)))"

text \<open>\<open>s.slice(i, e)\<close> for \<open>0 \<le> i\<close> and \<open>0 \<le> e\<close>; it is empty when \<open>e \<le> i\<close>.\<close>

definition slice :: "nat \<Rightarrow> nat \<Rightarrow> 'a list \<Rightarrow> 'a list" where
  "slice i e s = take (e - i) (drop i s)"

section \<open>chunkText\<close>

subsection \<open>Normalisation\<close>

text \<open>\<open>.replace(/\r/g, '')\<close>: every carriage return is deleted.\<close>

definition remove_cr :: "jsstring \<Rightarrow> jsstring" where
  "remove_cr s = filter (\<lambda>c. c \<noteq> 0xD) s"

text \<open>\<open>.replace(/[ \t]+/g, ' ')\<close>: every maximal run of spaces and tabs becomes one space.\<close>

definition isBlank :: "jschar \<Rightarrow> bool" where
  "isBlank c \<longleftrightarrow> c = 0x20 \<or> c = 0x9"

function collapse_blanks :: "jsstring \<Rightarrow> jsstring" where
  "collapse_blanks [] = []"
| "collapse_blanks (c # cs) =
     (if isBlank c then 0x20 # collapse_blanks (dropWhile isBlank cs)
      else c # collapse_blanks cs)"
  by pat_completeness auto
termination
  by (relation "measure length") (auto simp: less_Suc_eq_le length_dropWhile_le)

text \<open>
  \<open>.replace(/\n{3,}/g, '\n\n')\<close>: every maximal run of three or more line feeds becomes
  two line feeds; a run of one or two is not matched and stays.
\<close>

definition isLF :: "jschar \<Rightarrow> bool" where
  "isLF c \<longleftrightarrow> c = 0xA"

function collapse_newlines :: "jsstring \<Rightarrow> jsstring" where
  "collapse_newlines [] = []"
| "collapse_newlines (c # cs) =
     (if isLF c
      then (if 3 \<le> length (takeWhile isLF (c # cs)) then [0xA, 0xA]
            else takeWhile isLF (c # cs))
           @ collapse_newlines (dropWhile isLF cs)
      else c # collapse_newlines cs)"
  by pat_completeness auto
termination
  by (relation "measure length") (auto simp: less_Suc_eq_le length_dropWhile_le)

text \<open>
  The value of \<open>cleaned\<close>. The argument is a string, on which \<open>String(text || '')\<close> is
  the identity (the empty string is the only falsy string).
\<close>

definition normalize :: "jsstring \<Rightarrow> jsstring" where
  "normalize text = trim (collapse_newlines (collapse_blanks (remove_cr text)))"

subsection \<open>The segmentation loop\<close>

text \<open>
  The \<open>while\<close> loop of \<open>chunkText\<close>, with the cursor \<open>i\<close> and the array \<open>chunks\<close> as
  loop state. The loop need not terminate, so the result is an option: \<open>None\<close> stands
  for a call that never returns. \<open>chunkSize\<close> and \<open>overlap\<close> are non-negative integers;
  \<open>Math.max(0, end - overlap)\<close> is computed in the integers.
\<close>

partial_function (option) chunk_loop ::
  "jsstring \<Rightarrow> nat \<Rightarrow> nat \<Rightarrow> nat \<Rightarrow> jsstring list \<Rightarrow> jsstring list option" where
  "chunk_loop cleaned chunkSize overlap i chunks =
     (if i < length cleaned then
        (let end = min (i + chunkSize) (length cleaned);
             chunk = trim (slice i end cleaned);
             chunks' = (if chunk \<noteq> [] then chunks @ [chunk] else chunks)
         in if end = length cleaned then Some chunks'
            else chunk_loop cleaned chunkSize overlap (nat (max 0 (int end - int overlap))) chunks')
      else Some chunks)"

declare chunk_loop.simps [code]

definition chunkText :: "jsstring \<Rightarrow> nat \<Rightarrow> nat \<Rightarrow> jsstring list option" where
  "chunkText text chunkSize overlap = chunk_loop (normalize text) chunkSize overlap 0 []"

text \<open>
  The cut positions of the loop when \<open>overlap < chunkSize\<close>: the pair \<open>(i, end)\<close> of
  every iteration, in order. This is a specification-level view of the loop, used to state
  what the windows cover; \<open>chunk_loop_windows\<close> below relates it to the loop itself.
\<close>

function windows :: "nat \<Rightarrow> nat \<Rightarrow> nat \<Rightarrow> nat \<Rightarrow> (nat \<times> nat) list" where
  "windows len chunkSize overlap i =
     (if i < len \<and> overlap < chunkSize then
        (i, min (i + chunkSize) len) #
        (if min (i + chunkSize) len = len then []
         else windows len chunkSize overlap (min (i + chunkSize) len - overlap))
      else [])"
  by pat_completeness auto
termination
  by (relation "measure (\<lambda>(len, chunkSize, overlap, i). len - i)") (auto simp: min_def)

text \<open>
  Concatenation of segments "accounting for the declared overlap": every segment but the
  first repeats \<open>overlap\<close> characters of its predecessor, which are dropped.
\<close>

fun reconstruct :: "nat \<Rightarrow> 'a list list \<Rightarrow> 'a list" where
  "reconstruct overlap [] = []"
| "reconstruct overlap (s # ss) = s @ concat (map (drop overlap) ss)"

section \<open>cosineSimilarity\<close>

text \<open>
  Vectors are arrays of numbers. JavaScript numbers are IEEE-754 doubles; they are modelled
  as real numbers, so rounding, overflow and NaN are outside the model. The \<open>for\<close> loop
  reads \<open>a[i]\<close> and \<open>b[i]\<close> only for \<open>i < len \<le> length a, length b\<close>.
\<close>

type_synonym vector = "real list"

function cosine_loop ::
  "vector \<Rightarrow> vector \<Rightarrow> nat \<Rightarrow> nat \<Rightarrow> real \<times> real \<times> real \<Rightarrow> real \<times> real \<times> real" where
  "cosine_loop a b len i (dot, na, nb) =
     (if i < len
      then cosine_loop a b len (i + 1)
             (dot + a ! i * b ! i, na + a ! i * a ! i, nb + b ! i * b ! i)
      else (dot, na, nb))"
  by pat_completeness auto
termination
  by (relation "measure (\<lambda>(a, b, len, i, acc). len - i)") auto

definition cosineSimilarity :: "vector \<Rightarrow> vector \<Rightarrow> real" where
  "cosineSimilarity a b =
     (let len = min (length a) (length b);
          (dot, na, nb) = cosine_loop a b len 0 (0, 0, 0);
          denom = sqrt na * sqrt nb
      in if denom \<noteq> 0 then dot / denom else 0)"

section \<open>cosineSimilarity in double arithmetic\<close>

text \<open>
  A JavaScript number is an IEEE-754 double. \<open>F64 neg m\<close> is the finite number of sign
  \<open>neg\<close> (true for negative) and magnitude \<open>m \<ge> 0\<close>, so that \<open>F64 True 0\<close> is the
  negative zero; \<open>F64_Inf neg\<close> is an infinity and \<open>F64_NaN\<close> is NaN.
\<close>

datatype f64 = F64 bool real | F64_Inf bool | F64_NaN

text \<open>
  Rounding to the nearest double, ties to the even significand. Doubles below
  \<open>2 powi (f64_emin + 52)\<close> (the subnormal ones) are multiples of \<open>2 powi f64_emin\<close>; from
  there on a double in \<open>[2 powi k, 2 powi (k + 1))\<close> is a multiple of \<open>2 powi (k - 52)\<close>.
  A result of magnitude \<open>2 powi f64_emax\<close> or more overflows (\<open>None\<close>).
\<close>

definition round_half_even :: "real \<Rightarrow> int" where
  "round_half_even x =
     (if x - of_int \<lfloor>x\<rfloor> < 1 / 2 then \<lfloor>x\<rfloor>
      else if 1 / 2 < x - of_int \<lfloor>x\<rfloor> then \<lfloor>x\<rfloor> + 1
      else if even \<lfloor>x\<rfloor> then \<lfloor>x\<rfloor> else \<lfloor>x\<rfloor> + 1)"

definition f64_emin :: int where
  "f64_emin = - 1074"

definition f64_emax :: int where
  "f64_emax = 1024"

definition quantum :: "real \<Rightarrow> real" where
  "quantum r =
     (if r < 2 powi (f64_emin + 52) then 2 powi f64_emin else 2 powi (\<lfloor>log 2 r\<rfloor> - 52))"

definition round_mag :: "real \<Rightarrow> real option" where
  "round_mag r =
     (if 2 powi f64_emax \<le> r then None
      else if 2 powi f64_emax \<le> of_int (round_half_even (r / quantum r)) * quantum r then None
      else Some (of_int (round_half_even (r / quantum r)) * quantum r))"

text \<open>A real number of sign \<open>neg\<close> and magnitude \<open>r\<close> as a double; overflow gives an infinity.\<close>

definition round_f64 :: "bool \<Rightarrow> real \<Rightarrow> f64" where
  "round_f64 neg r = (case round_mag r of None \<Rightarrow> F64_Inf neg | Some v \<Rightarrow> F64 neg v)"

text \<open>
  The arithmetic of doubles: the exact result, rounded, with the special cases of
  IEEE-754 for zeros, infinities and NaN. An exact sum of zero is \<open>+0\<close> unless both
  operands are negative zeros.
\<close>

definition signed :: "bool \<Rightarrow> real \<Rightarrow> real" where
  "signed neg m = (if neg then - m else m)"

fun fadd :: "f64 \<Rightarrow> f64 \<Rightarrow> f64" where
  "fadd (F64 s m) (F64 t n) =
     (if signed s m + signed t n = 0 then F64 (s \<and> t) 0
      else round_f64 (signed s m + signed t n < 0) \<bar>signed s m + signed t n\<bar>)"
| "fadd (F64 s m) (F64_Inf t) = F64_Inf t"
| "fadd (F64_Inf s) (F64 t n) = F64_Inf s"
| "fadd (F64_Inf s) (F64_Inf t) = (if s = t then F64_Inf s else F64_NaN)"
| "fadd F64_NaN y = F64_NaN"
| "fadd x F64_NaN = F64_NaN"

fun fmul :: "f64 \<Rightarrow> f64 \<Rightarrow> f64" where
  "fmul (F64 s m) (F64 t n) = round_f64 (s \<noteq> t) (m * n)"
| "fmul (F64 s m) (F64_Inf t) = (if m = 0 then F64_NaN else F64_Inf (s \<noteq> t))"
| "fmul (F64_Inf s) (F64 t n) = (if n = 0 then F64_NaN else F64_Inf (s \<noteq> t))"
| "fmul (F64_Inf s) (F64_Inf t) = F64_Inf (s \<noteq> t)"
| "fmul F64_NaN y = F64_NaN"
| "fmul x F64_NaN = F64_NaN"

fun fdiv :: "f64 \<Rightarrow> f64 \<Rightarrow> f64" where
  "fdiv (F64 s m) (F64 t n) =
     (if n = 0 then (if m = 0 then F64_NaN else F64_Inf (s \<noteq> t))
      else round_f64 (s \<noteq> t) (m / n))"
| "fdiv (F64 s m) (F64_Inf t) = F64 (s \<noteq> t) 0"
| "fdiv (F64_Inf s) (F64 t n) = F64_Inf (s \<noteq> t)"
| "fdiv (F64_Inf s) (F64_Inf t) = F64_NaN"
| "fdiv F64_NaN y = F64_NaN"
| "fdiv x F64_NaN = F64_NaN"

fun fsqrt :: "f64 \<Rightarrow> f64" where
  "fsqrt (F64 s m) = (if s \<and> m \<noteq> 0 then F64_NaN else round_f64 s (sqrt m))"
| "fsqrt (F64_Inf s) = (if s then F64_NaN else F64_Inf False)"
| "fsqrt F64_NaN = F64_NaN"

fun f64_is_zero :: "f64 \<Rightarrow> bool" where
  "f64_is_zero (F64 s m) = (m = 0)"
| "f64_is_zero x = False"

text \<open>A number is falsy in a condition exactly when it is a zero or NaN.\<close>

definition truthy :: "f64 \<Rightarrow> bool" where
  "truthy x \<longleftrightarrow> \<not> (x = F64_NaN \<or> f64_is_zero x)"

text \<open>
  \<open>cosineSimilarity\<close> once more, now with the arithmetic of the source: every \<open>+=\<close>,
  product, \<open>Math.sqrt\<close> and the quotient are operations on doubles; \<open>0\<close> is \<open>+0\<close>.
\<close>

function cosine_loop_f64 ::
  "f64 list \<Rightarrow> f64 list \<Rightarrow> nat \<Rightarrow> nat \<Rightarrow> f64 \<times> f64 \<times> f64 \<Rightarrow> f64 \<times> f64 \<times> f64" where
  "cosine_loop_f64 a b len i (dot, na, nb) =
     (if i < len
      then cosine_loop_f64 a b len (i + 1)
             (fadd dot (fmul (a ! i) (b ! i)),
              fadd na (fmul (a ! i) (a ! i)),
              fadd nb (fmul (b ! i) (b ! i)))
      else (dot, na, nb))"
  by pat_completeness auto
termination
  by (relation "measure (\<lambda>(a, b, len, i, acc). len - i)") auto

definition cosineSimilarity_f64 :: "f64 list \<Rightarrow> f64 list \<Rightarrow> f64" where
  "cosineSimilarity_f64 a b =
     (let len = min (length a) (length b);
          (dot, na, nb) = cosine_loop_f64 a b len 0 (F64 False 0, F64 False 0, F64 False 0);
          denom = fmul (fsqrt na) (fsqrt nb)
      in if truthy denom then fdiv dot denom else F64 False 0)"

section \<open>The index and its collaborators\<close>

text \<open>
  The records of the index and the payload that is written to the index file, with the
  fields the object literals of \<open>indexPdfToJson\<close> give them. A sequence number is a
  non-negative integer. An embedding is what the embedding service returned in the field
  \<open>embedding\<close> of its reply: an array of numbers, or \<open>undefined\<close> (here \<open>None\<close>) when
  the reply has no such field, as for a reply that only reports an error. The type \<open>'n\<close>
  of the numbers is a parameter: the ranking is studied over the real numbers, the
  serialisation of the index over IEEE-754 doubles.
\<close>

record 'n item =
  item_id :: jsstring
  item_source :: jsstring
  item_chunk :: nat
  item_text :: jsstring
  item_embedding :: "'n list option"

record 'n payload =
  payload_createdAt :: jsstring
  payload_source :: jsstring
  payload_embedModel :: jsstring
  payload_chunkSize :: nat
  payload_chunkOverlap :: nat
  payload_count :: nat
  payload_items :: "'n item list"

record stats =
  stats_chunks :: nat
  stats_embedModel :: jsstring
  stats_source :: jsstring

text \<open>
  \<open>Error msg\<close> is \<open>throw new Error(msg)\<close> in this code. \<open>TypeError\<close> is what the
  runtime throws when a property of \<open>undefined\<close> is read. \<open>Failure\<close> is an exception
  that comes out of a collaborator: the Ollama HTTP calls, the PDF parser, the file system
  or \<open>JSON.parse\<close>.
\<close>

datatype error = Error string | TypeError | Failure string

text \<open>
  The collaborators are parameters of the model:
  \<^item> \<open>pdf_text path\<close>: \<open>fs.readFileSync(path)\<close> followed by \<open>PDFParse.getText()\<close>, the
    field \<open>text\<close> of the result;
  \<^item> \<open>embeddings_api model prompt\<close>: the field \<open>embedding\<close> of the response of
    \<open>POST /api/embeddings\<close>: an array of numbers, or \<open>None\<close> for \<open>undefined\<close>;
  \<^item> \<open>chat_api model system user\<close>: \<open>data?.message?.content\<close> of the response of
    \<open>POST /api/chat\<close>, \<open>None\<close> when it is not a string;
  \<^item> \<open>clock_iso\<close>: \<open>new Date().toISOString()\<close>;
  \<^item> \<open>json_stringify\<close> and \<open>json_parse\<close>: \<open>JSON.stringify(payload, null, 2)\<close> and
    \<open>JSON.parse\<close>; the parsed value is \<open>None\<close> for \<open>null\<close> and otherwise an object
    with the fields of a payload.
  The file system is a map from paths to the text of the files; directories are not
  modelled, so \<open>fs.mkdirSync\<close> has no effect here and \<open>fs.writeFileSync\<close> succeeds.
\<close>

record 'n env =
  pdf_text :: "jsstring \<Rightarrow> error + jsstring"
  embeddings_api :: "jsstring \<Rightarrow> jsstring \<Rightarrow> error + 'n list option"
  chat_api :: "jsstring \<Rightarrow> jsstring \<Rightarrow> jsstring \<Rightarrow> error + jsstring option"
  clock_iso :: jsstring
  json_stringify :: "'n payload \<Rightarrow> jsstring"
  json_parse :: "jsstring \<Rightarrow> error + 'n payload option"

type_synonym fs = "jsstring \<rightharpoonup> jsstring"

text \<open>\<open>ollamaEmbeddings\<close> returns \<open>data.embedding\<close> as it is, without a check.\<close>

definition ollamaEmbeddings ::
  "'n env \<Rightarrow> jsstring \<Rightarrow> jsstring \<Rightarrow> error + 'n list option" where
  "ollamaEmbeddings env model text = embeddings_api env model text"

definition chat_invalid :: string where
  "chat_invalid = ''R'' @ [char_of (0xE9 :: nat)] @ ''ponse Ollama chat invalide''"

definition ollamaChat ::
  "'n env \<Rightarrow> jsstring \<Rightarrow> jsstring \<Rightarrow> jsstring \<Rightarrow> error + jsstring" where
  "ollamaChat env model system user =
     (case chat_api env model system user of
        Inl e \<Rightarrow> Inl e
      | Inr None \<Rightarrow> Inl (Error chat_invalid)
      | Inr (Some content) \<Rightarrow> Inr (trim content))"

text \<open>The decimal digits of a non-negative integer, as a template literal prints it.\<close>

function string_of_nat :: "nat \<Rightarrow> jsstring" where
  "string_of_nat n =
     (if n < 10 then [of_nat (48 + n)]
      else string_of_nat (n div 10) @ [of_nat (48 + n mod 10)])"
  by pat_completeness auto
termination
  by (relation "measure id") auto

section \<open>indexPdfToJson\<close>

text \<open>
  The \<open>for\<close> loop over the chunks: one call of the embedding service for each chunk, in
  order; an exception of the service leaves the loop and the function.
\<close>

function embed_loop ::
  "'n env \<Rightarrow> jsstring \<Rightarrow> jsstring \<Rightarrow> jsstring list \<Rightarrow> nat \<Rightarrow> 'n item list
     \<Rightarrow> error + 'n item list" where
  "embed_loop env sourceName embedModel chunks i items =
     (if i < length chunks then
        (case ollamaEmbeddings env embedModel (chunks ! i) of
           Inl e \<Rightarrow> Inl e
         | Inr embedding \<Rightarrow>
             embed_loop env sourceName embedModel chunks (i + 1)
               (items @ [\<lparr>item_id = sourceName @ js ''::chunk_'' @ string_of_nat (i + 1),
                          item_source = sourceName,
                          item_chunk = i + 1,
                          item_text = chunks ! i,
                          item_embedding = embedding\<rparr>]))
      else Inr items)"
  by pat_completeness auto
termination
  by (relation "measure (\<lambda>(env, sourceName, embedModel, chunks, i, items). length chunks - i)")
    auto

text \<open>
  The result is \<open>None\<close> when the call never returns (the segmentation loop diverges),
  \<open>Some (Inl e)\<close> when it throws and \<open>Some (Inr (stats, fs'))\<close> when it returns \<open>stats\<close>
  and leaves the file system \<open>fs'\<close>. The parameters are given explicitly; the defaults of
  the source apply when the caller leaves them out.
\<close>

definition indexPdfToJson ::
  "'n env \<Rightarrow> fs \<Rightarrow> jsstring \<Rightarrow> jsstring \<Rightarrow> jsstring \<Rightarrow> nat \<Rightarrow> nat \<Rightarrow> jsstring
     \<Rightarrow> (error + stats \<times> fs) option" where
  "indexPdfToJson env fs pdfPath outPath sourceName chunkSize chunkOverlap embedModel =
     (case pdf_text env pdfPath of
        Inl e \<Rightarrow> Some (Inl e)
      | Inr texte \<Rightarrow>
          (case chunkText texte chunkSize chunkOverlap of
             None \<Rightarrow> None
           | Some chunks \<Rightarrow>
               (case embed_loop env sourceName embedModel chunks 0 [] of
                  Inl e \<Rightarrow> Some (Inl e)
                | Inr items \<Rightarrow>
                    Some (Inr
                      (\<lparr>stats_chunks = length items,
                        stats_embedModel = embedModel,
                        stats_source = sourceName\<rparr>,
                       fs(outPath \<mapsto> json_stringify env
                         \<lparr>payload_createdAt = clock_iso env,
                          payload_source = sourceName,
                          payload_embedModel = embedModel,
                          payload_chunkSize = chunkSize,
                          payload_chunkOverlap = chunkOverlap,
                          payload_count = length items,
                          payload_items = items\<rparr>))))))"

section \<open>answerQuestion\<close>

record scored =
  scored_item :: "real item"
  scored_score :: real

text \<open>
  \<open>.sort((a, b) => b.score - a.score)\<close>: \<open>Array.prototype.sort\<close> is stable, so the
  result is the stable sort by descending score, which is the stable sort by ascending
  negated score. \<open>.slice(0, topK)\<close> keeps the first \<open>topK\<close> elements.
\<close>

definition sort_desc :: "scored list \<Rightarrow> scored list" where
  "sort_desc xs = sort_key (\<lambda>s. - scored_score s) xs"

text \<open>
  The call \<open>cosineSimilarity(a, b)\<close> on values that may be \<open>undefined\<close>: the function
  starts with \<open>Math.min(a.length, b.length)\<close>, and reading \<open>length\<close> of \<open>undefined\<close>
  throws a TypeError.
\<close>

definition cosineSimilarity_call :: "vector option \<Rightarrow> vector option \<Rightarrow> error + real" where
  "cosineSimilarity_call a b =
     (case a of
        None \<Rightarrow> Inl TypeError
      | Some a' \<Rightarrow> (case b of None \<Rightarrow> Inl TypeError | Some b' \<Rightarrow> Inr (cosineSimilarity a' b')))"

text \<open>
  \<open>items.map((item) => ({ item: item, score: cosineSimilarity(...) }))\<close>: the records
  are scored in order, and an exception in the callback leaves the \<open>map\<close>.
\<close>

fun score_items :: "vector option \<Rightarrow> real item list \<Rightarrow> error + scored list" where
  "score_items questionEmbedding [] = Inr []"
| "score_items questionEmbedding (item # items) =
     (case cosineSimilarity_call questionEmbedding (item_embedding item) of
        Inl e \<Rightarrow> Inl e
      | Inr s \<Rightarrow>
          (case score_items questionEmbedding items of
             Inl e \<Rightarrow> Inl e
           | Inr rest \<Rightarrow> Inr (\<lparr>scored_item = item, scored_score = s\<rparr> # rest)))"

text \<open>The sort followed by the slice; \<open>topK\<close> is a non-negative integer.\<close>

definition rank :: "scored list \<Rightarrow> nat \<Rightarrow> scored list" where
  "rank xs topK = take topK (sort_desc xs)"

text \<open>\<open>Number(x.toFixed(4))\<close>: the nearest multiple of \<open>1/10000\<close>, a tie going away from zero.\<close>

definition toFixed4 :: "real \<Rightarrow> real" where
  "toFixed4 x =
     (if x < 0 then - (of_int \<lfloor>- x * 10000 + 1 / 2\<rfloor> / 10000)
      else of_int \<lfloor>x * 10000 + 1 / 2\<rfloor> / 10000)"

fun join :: "jsstring \<Rightarrow> jsstring list \<Rightarrow> jsstring" where
  "join sep [] = []"
| "join sep [x] = x"
| "join sep (x # y # ys) = x @ sep @ join sep (y # ys)"

definition context_of :: "scored list \<Rightarrow> jsstring" where
  "context_of xs =
     join [0xA, 0xA]
       (map (\<lambda>(idx, s). js ''[#'' @ string_of_nat (idx + 1) @ js '' | ''
                          @ item_id (scored_item s) @ js '']'' @ [0xA]
                          @ item_text (scored_item s))
            (enumerate 0 xs))"

definition systemPrompt :: jsstring where
  "systemPrompt =
     join [0x20]
       [js ''Tu es un assistant NLP.'',
        js ''Tu r'' @ [0xE9] @ js ''ponds UNIQUEMENT '' @ [0xE0]
          @ js '' partir du CONTEXTE fourni ci-dessous.'',
        js ''Si l'information n'est pas dans le contexte, dis clairement : 'Je ne trouve pas cette information dans le document.''
          @ [0x27],
        [0xC0] @ js '' la fin de ta r'' @ [0xE9]
          @ js ''ponse, ajoute une section 'Sources' qui liste les IDs des chunks utilis''
          @ [0xE9] @ js ''s.'']"

definition userPrompt :: "jsstring \<Rightarrow> jsstring \<Rightarrow> jsstring" where
  "userPrompt context question =
     js ''CONTEXTE:'' @ [0xA] @ context @ [0xA, 0xA] @ js ''QUESTION:'' @ [0xA] @ question
       @ [0xA, 0xA] @ js ''R'' @ [0xE9] @ js ''ponse:''"

definition index_missing :: string where
  "index_missing = ''Index introuvable. Fais d'abord l'indexation du PDF.''"

definition index_empty :: string where
  "index_empty = ''Index vide.''"

text \<open>\<open>db?.items || []\<close>: no items when the parsed file is \<open>null\<close>.\<close>

definition db_items :: "'n payload option \<Rightarrow> 'n item list" where
  "db_items db = (case db of None \<Rightarrow> [] | Some p \<Rightarrow> payload_items p)"

record answer =
  answer_text :: jsstring
  answer_sources :: "(jsstring \<times> real) list"

definition answerQuestion ::
  "real env \<Rightarrow> fs \<Rightarrow> jsstring \<Rightarrow> jsstring \<Rightarrow> nat \<Rightarrow> jsstring \<Rightarrow> jsstring \<Rightarrow> error + answer" where
  "answerQuestion env fs indexPath question topK chatModel embedModel =
     (case fs indexPath of
        None \<Rightarrow> Inl (Error index_missing)
      | Some raw \<Rightarrow>
          (case json_parse env raw of
             Inl e \<Rightarrow> Inl e
           | Inr db \<Rightarrow>
               if db_items db = [] then Inl (Error index_empty)
               else
                 (case ollamaEmbeddings env embedModel question of
                    Inl e \<Rightarrow> Inl e
                  | Inr questionEmbedding \<Rightarrow>
                      (case score_items questionEmbedding (db_items db) of
                         Inl e \<Rightarrow> Inl e
                       | Inr all_scored \<Rightarrow>
                           (let scored = rank all_scored topK
                            in case ollamaChat env chatModel systemPrompt
                                      (userPrompt (context_of scored) question) of
                                 Inl e \<Rightarrow> Inl e
                               | Inr a \<Rightarrow>
                                   Inr \<lparr>answer_text = a,
                                        answer_sources =
                                          map (\<lambda>s. (item_id (scored_item s),
                                                    toFixed4 (scored_score s)))
                                            scored\<rparr>)))))"

section \<open>The index file as JSON\<close>


subsection \<open>Strings\<close>













subsection \<open>Numbers\<close>















subsection \<open>JSON.stringify\<close>





subsection \<open>JSON.parse\<close>






subsection \<open>The payload as a value\<close>






section \<open>Specification-level notions\<close>

text \<open>The text of a window \<open>(i, end)\<close>: \<open>cleaned.slice(i, end)\<close>, before it is trimmed.\<close>

definition window_text :: "jsstring \<Rightarrow> nat \<times> nat \<Rightarrow> jsstring" where
  "window_text cleaned p = slice (fst p) (snd p) cleaned"

definition cuts :: "jsstring \<Rightarrow> nat \<Rightarrow> nat \<Rightarrow> (nat \<times> nat) list" where
  "cuts text chunkSize overlap = windows (length (normalize text)) chunkSize overlap 0"

text \<open>
  Cosine similarity as the specification words it: with \<open>L = min (length A) (length B)\<close>,
  the sums \<open>dot\<close>, \<open>normA\<close> and \<open>normB\<close> over \<open>i < L\<close>, and the quotient unless the
  denominator is zero.
\<close>

definition spec_dot :: "vector \<Rightarrow> vector \<Rightarrow> real" where
  "spec_dot A B = (\<Sum>i<min (length A) (length B). A ! i * B ! i)"

definition spec_normA :: "vector \<Rightarrow> vector \<Rightarrow> real" where
  "spec_normA A B = (\<Sum>i<min (length A) (length B). A ! i * A ! i)"

definition spec_normB :: "vector \<Rightarrow> vector \<Rightarrow> real" where
  "spec_normB A B = (\<Sum>i<min (length A) (length B). B ! i * B ! i)"

definition spec_cosine :: "vector \<Rightarrow> vector \<Rightarrow> real" where
  "spec_cosine A B =
     (if sqrt (spec_normA A B) * sqrt (spec_normB A B) = 0 then 0
      else spec_dot A B / (sqrt (spec_normA A B) * sqrt (spec_normB A B)))"

text \<open>
  The same formula in double arithmetic: the sums are taken from \<open>+0\<close> upwards in the
  order of the indices, each step rounded; the result is 0 when the denominator is a zero
  or NaN. \<open>is_mag\<close> says which magnitudes are doubles.
\<close>

definition f64_sum :: "f64 list \<Rightarrow> f64" where
  "f64_sum xs = foldl fadd (F64 False 0) xs"

definition spec_dot_f64 :: "f64 list \<Rightarrow> f64 list \<Rightarrow> f64" where
  "spec_dot_f64 A B = f64_sum (map (\<lambda>i. fmul (A ! i) (B ! i)) [0..<min (length A) (length B)])"

definition spec_normA_f64 :: "f64 list \<Rightarrow> f64 list \<Rightarrow> f64" where
  "spec_normA_f64 A B = f64_sum (map (\<lambda>i. fmul (A ! i) (A ! i)) [0..<min (length A) (length B)])"

definition spec_normB_f64 :: "f64 list \<Rightarrow> f64 list \<Rightarrow> f64" where
  "spec_normB_f64 A B = f64_sum (map (\<lambda>i. fmul (B ! i) (B ! i)) [0..<min (length A) (length B)])"

definition spec_denom_f64 :: "f64 list \<Rightarrow> f64 list \<Rightarrow> f64" where
  "spec_denom_f64 A B = fmul (fsqrt (spec_normA_f64 A B)) (fsqrt (spec_normB_f64 A B))"

definition spec_cosine_f64 :: "f64 list \<Rightarrow> f64 list \<Rightarrow> f64" where
  "spec_cosine_f64 A B =
     (if spec_denom_f64 A B = F64_NaN \<or> f64_is_zero (spec_denom_f64 A B) then F64 False 0
      else fdiv (spec_dot_f64 A B) (spec_denom_f64 A B))"

definition is_mag :: "real \<Rightarrow> bool" where
  "is_mag m \<longleftrightarrow>
     (\<exists>j::nat. j < 2 ^ 52 \<and> m = of_nat j * 2 powi f64_emin) \<or>
     (\<exists>(j::nat) (e::int). 2 ^ 52 \<le> j \<and> j < 2 ^ 53 \<and> f64_emin \<le> e \<and> e + 53 \<le> f64_emax \<and>
        m = of_nat j * 2 powi e)"














section \<open>Example inputs\<close>

definition ex_item :: "nat \<Rightarrow> vector \<Rightarrow> real item" where
  "ex_item n v =
     \<lparr>item_id = js ''doc.pdf::chunk_'' @ string_of_nat n, item_source = js ''doc.pdf'',
      item_chunk = n, item_text = js ''text'', item_embedding = Some v\<rparr>"

definition ex_payload :: "real item list \<Rightarrow> real payload" where
  "ex_payload items =
     \<lparr>payload_createdAt = js ''2024-01-01T00:00:00.000Z'',
      payload_source = js ''doc.pdf'', payload_embedModel = js ''nomic-embed-text'',
      payload_chunkSize = 1200, payload_chunkOverlap = 200,
      payload_count = length items, payload_items = items\<rparr>"

text \<open>
  An environment whose PDF holds only white space, whose embedding service answers
  \<open>[1, 2]\<close> and whose chat service answers \<open>ok\<close> between two spaces. The texts
  \<open>index:0\<close> and \<open>index:1\<close> stand for the JSON of an index with no record and of an index
  with one record, the embedding of which is the empty vector.
\<close>

definition ex_env :: "real env" where
  "ex_env = \<lparr>
     pdf_text = (\<lambda>path. Inr [0x20, 0xA, 0x9, 0x20]),
     embeddings_api = (\<lambda>model prompt. Inr (Some [1, 2])),
     chat_api = (\<lambda>model system user. Inr (Some (js '' ok ''))),
     clock_iso = js ''2024-01-01T00:00:00.000Z'',
     json_stringify = (\<lambda>p. js ''index:'' @ string_of_nat (payload_count p)),
     json_parse = (\<lambda>raw. if raw = js ''index:0'' then Inr (Some (ex_payload []))
                        else if raw = js ''index:1'' then Inr (Some (ex_payload [ex_item 1 []]))
                        else Inl (Failure ''SyntaxError''))\<rparr>"



text \<open>Two doubles whose squares overflow and underflow.\<close>

definition big :: real where "big = 2 powi 600"
definition tiny :: real where "tiny = 2 powi (- 600)"

text \<open>
  The equations of the loops are unconditional, so they are unfolded by hand where needed.
\<close>




declare windows.simps [simp del]
declare cosine_loop.simps [simp del]
declare string_of_nat.simps [simp del]
declare embed_loop.simps [simp del]
declare cosine_loop_f64.simps [simp del]

section \<open>Divergence of the segmentation loop\<close>

text \<open>
  When the overlap is at least the window size and the text is longer than one window,
  the first iteration ends at \<open>end = chunkSize\<close>, which is not the end of the text, and
  sets the cursor to \<open>max 0 (chunkSize - overlap) = 0\<close>: the loop is back in its first
  state, except that \<open>chunks\<close> has grown. No call from such a state returns (the
  process pushes the same chunk until it runs out of memory).
\<close>

lemma chunk_loop_stuck:
  assumes "chunk_loop cleaned w ov i acc = Some y"
  shows "\<not> (i = 0 \<and> w \<le> ov \<and> w < length cleaned)"
proof (rule chunk_loop.raw_induct
    [where P = "\<lambda>cleaned w ov i acc y. \<not> (i = 0 \<and> w \<le> ov \<and> w < length cleaned)", OF _ assms])
  fix f cleaned w ov i acc y
  assume IH: "\<And>cleaned w ov i acc y. f cleaned w ov i acc = Some y \<Longrightarrow>
                \<not> (i = 0 \<and> w \<le> ov \<and> w < length cleaned)"
    and step: "(if i < length cleaned then
        (let end = min (i + w) (length cleaned);
             chunk = trim (slice i end cleaned);
             chunks' = (if chunk \<noteq> [] then acc @ [chunk] else acc)
         in if end = length cleaned then Some chunks'
            else f cleaned w ov (nat (max 0 (int end - int ov))) chunks')
      else Some acc) = Some y"
  show "\<not> (i = 0 \<and> w \<le> ov \<and> w < length cleaned)"
  proof
    assume stuck: "i = 0 \<and> w \<le> ov \<and> w < length cleaned"
    then have e: "min (i + w) (length cleaned) = w" and ne: "w \<noteq> length cleaned"
      and rewind: "nat (max 0 (int w - int ov)) = 0" and lt: "i < length cleaned"
      by auto
    from step lt e ne rewind obtain acc' where "f cleaned w ov 0 acc' = Some y"
      by (auto simp: Let_def split: if_splits)
    from IH [OF this] stuck show False by simp
  qed
qed

lemma chunkText_diverges:
  assumes "chunkSize \<le> overlap" and "chunkSize < length (normalize text)"
  shows "chunkText text chunkSize overlap = None"
proof (cases "chunkText text chunkSize overlap")
  case None
  then show ?thesis .
next
  case (Some y)
  then have "chunk_loop (normalize text) chunkSize overlap 0 [] = Some y"
    by (simp add: chunkText_def)
  from chunk_loop_stuck [OF this] assms show ?thesis by simp
qed

lemma normalize_abc: "normalize (js ''abc'') = js ''abc''"
  by code_simp

text \<open>
  C1 (the segmentation loop makes progress and terminates for every overlap, also for
  \<open>overlap \<ge> windowSize\<close>): the code does not do this. On the text \<open>abc\<close> with window
  size 1 and overlap 1 the cursor returns to 0 after the first iteration, and the call
  never returns.
\<close>

theorem chunkText_abc_1_1_never_returns:
  "chunkText (js ''abc'') 1 1 = None"
  by (rule chunkText_diverges) (simp_all add: normalize_abc, simp add: js_def)

section \<open>The loop when the overlap is smaller than the window\<close>

text \<open>
  With \<open>overlap < chunkSize\<close> the loop returns, and what it returns are the trimmed
  texts of the windows, in order, without those that trim to the empty string.
\<close>

lemma chunk_loop_windows:
  "overlap < chunkSize \<Longrightarrow>
   chunk_loop cleaned chunkSize overlap i acc =
     Some (acc @ filter (\<lambda>s. s \<noteq> [])
             (map (\<lambda>p. trim (window_text cleaned p)) (windows (length cleaned) chunkSize overlap i)))"
proof (induction "length cleaned" chunkSize overlap i arbitrary: acc rule: windows.induct)
  case (1 chunkSize overlap i)
  show ?case
  proof (cases "i < length cleaned")
    case False
    then show ?thesis
      by (subst chunk_loop.simps, subst windows.simps) simp
  next
    case True
    show ?thesis
    proof (cases "min (i + chunkSize) (length cleaned) = length cleaned")
      case last: True
      with True 1(2) show ?thesis
        by (subst chunk_loop.simps, subst windows.simps) (simp add: Let_def window_text_def)
    next
      case more: False
      from 1(1) [OF _ more 1(2)] True 1(2)
      have IH: "\<And>acc. chunk_loop cleaned chunkSize overlap
                  (min (i + chunkSize) (length cleaned) - overlap) acc =
                Some (acc @ filter (\<lambda>s. s \<noteq> [])
                  (map (\<lambda>p. trim (window_text cleaned p))
                    (windows (length cleaned) chunkSize overlap
                      (min (i + chunkSize) (length cleaned) - overlap))))"
        by simp
      have nx: "nat (int i + int chunkSize - int overlap) = i + chunkSize - overlap"
        by arith
      from more have e: "min (i + chunkSize) (length cleaned) = i + chunkSize"
        by (simp add: min_def split: if_splits)
      from True more 1(2) show ?thesis
        by (subst chunk_loop.simps, subst windows.simps)
          (use IH in \<open>simp add: Let_def window_text_def e nx\<close>)
    qed
  qed
qed

lemma chunkText_windows:
  "overlap < chunkSize \<Longrightarrow>
   chunkText text chunkSize overlap =
     Some (filter (\<lambda>s. s \<noteq> [])
       (map (\<lambda>p. trim (window_text (normalize text) p)) (cuts text chunkSize overlap)))"
  by (simp add: chunkText_def cuts_def chunk_loop_windows)

text \<open>
  One window per iteration: with step \<open>d = chunkSize - overlap\<close> the loop runs at most
  \<open>\<lceil>(len - i) / d\<rceil> + 1\<close> times from cursor \<open>i\<close>, and every iteration but the last
  moves the cursor forward by \<open>d\<close>.
\<close>

lemma windows_count:
  "overlap < chunkSize \<Longrightarrow>
   length (windows len chunkSize overlap i)
     \<le> (len - i + (chunkSize - overlap) - 1) div (chunkSize - overlap) + 1"
proof (induction len chunkSize overlap i rule: windows.induct)
  case (1 len chunkSize overlap i)
  show ?case
  proof (cases "i < len \<and> min (i + chunkSize) len \<noteq> len")
    case False
    then have "length (windows len chunkSize overlap i) \<le> 1"
      by (subst windows.simps) (simp split: if_splits)
    then show ?thesis by simp
  next
    case True
    then have e: "min (i + chunkSize) len = i + chunkSize" and lt: "i + chunkSize < len"
      by (auto simp: min_def split: if_splits)
    define d where "d = chunkSize - overlap"
    have dpos: "0 < d" and nx: "min (i + chunkSize) len - overlap = i + d"
      using 1(2) e by (simp_all add: d_def)
    from 1(1) True 1(2)
    have "length (windows len chunkSize overlap (min (i + chunkSize) len - overlap))
          \<le> (len - (min (i + chunkSize) len - overlap) + (chunkSize - overlap) - 1)
               div (chunkSize - overlap) + 1"
      by blast
    then have IH: "length (windows len chunkSize overlap (i + d)) \<le> (len - (i + d) + d - 1) div d + 1"
      by (simp only: nx d_def [symmetric])
    have "i + d < len" using lt 1(2) by (simp add: d_def)
    then have "len - i + d - 1 = (len - (i + d) + d - 1) + d"
      using dpos by simp
    moreover have "((len - (i + d) + d - 1) + d) div d = (len - (i + d) + d - 1) div d + 1"
      using dpos by (simp only: div_add_self2)
    ultimately have dv: "(len - i + d - 1) div d = (len - (i + d) + d - 1) div d + 1"
      by (simp only:)
    have "windows len chunkSize overlap i =
        (i, min (i + chunkSize) len) # windows len chunkSize overlap (min (i + chunkSize) len - overlap)"
      using True 1(2) by (subst windows.simps) simp
    then have "length (windows len chunkSize overlap i) =
        Suc (length (windows len chunkSize overlap (i + d)))"
      by (simp only: nx list.size length_Cons)
    with IH dv have "length (windows len chunkSize overlap i) \<le> (len - i + d - 1) div d + 1"
      by simp
    then show ?thesis by (simp only: d_def)
  qed
qed

subsection \<open>What the windows cover\<close>

lemma drop_slice: "drop k (slice i e s) = slice (i + k) e s"
  by (simp add: slice_def drop_take add.commute)

lemma slice_append_drop:
  assumes "i \<le> e"
  shows "slice i e s @ drop e s = drop i s"
proof -
  from assms have "drop e s = drop (e - i) (drop i s)" by simp
  then show ?thesis unfolding slice_def by (metis append_take_drop_id)
qed

lemma windows_tail_cover:
  "overlap < chunkSize \<Longrightarrow>
   concat (map (\<lambda>p. drop overlap (window_text cleaned p))
     (windows (length cleaned) chunkSize overlap i)) = drop (i + overlap) cleaned"
proof (induction "length cleaned" chunkSize overlap i rule: windows.induct)
  case (1 chunkSize overlap i)
  show ?case
  proof (cases "i < length cleaned")
    case False
    then show ?thesis by (subst windows.simps) simp
  next
    case True
    show ?thesis
    proof (cases "min (i + chunkSize) (length cleaned) = length cleaned")
      case last: True
      with True 1(2) show ?thesis
        by (subst windows.simps) (simp add: window_text_def drop_slice slice_def add.commute)
    next
      case more: False
      then have e: "min (i + chunkSize) (length cleaned) = i + chunkSize"
        by (simp add: min_def split: if_splits)
      from 1(1) [OF _ more 1(2)] True 1(2) e
      have IH: "concat (map (\<lambda>p. drop overlap (window_text cleaned p))
                 (windows (length cleaned) chunkSize overlap (i + chunkSize - overlap))) =
               drop (i + chunkSize) cleaned"
        by simp
      have "slice (i + overlap) (i + chunkSize) cleaned @ drop (i + chunkSize) cleaned =
            drop (i + overlap) cleaned"
        using 1(2) by (intro slice_append_drop) simp
      with True more 1(2) e IH show ?thesis
        by (subst windows.simps) (simp add: window_text_def drop_slice)
    qed
  qed
qed

lemma windows_reconstruct:
  assumes "overlap < chunkSize"
  shows "reconstruct overlap
           (map (window_text cleaned) (windows (length cleaned) chunkSize overlap 0)) = cleaned"
proof (cases "cleaned = []")
  case True
  then show ?thesis by (subst windows.simps) simp
next
  case False
  show ?thesis
  proof (cases "min chunkSize (length cleaned) = length cleaned")
    case True
    with False assms show ?thesis
      by (subst windows.simps) (simp add: window_text_def slice_def)
  next
    case more: False
    then have e: "min chunkSize (length cleaned) = chunkSize"
      by (simp add: min_def split: if_splits)
    have "concat (map (\<lambda>p. drop overlap (window_text cleaned p))
            (windows (length cleaned) chunkSize overlap (chunkSize - overlap))) =
          drop chunkSize cleaned"
      using windows_tail_cover [OF assms, of cleaned "chunkSize - overlap"] assms by simp
    with False more e assms show ?thesis
      by (subst windows.simps) (simp add: window_text_def slice_def comp_def)
  qed
qed

lemma windows_last_end:
  "overlap < chunkSize \<Longrightarrow> i < len \<Longrightarrow>
   windows len chunkSize overlap i \<noteq> [] \<and> snd (last (windows len chunkSize overlap i)) = len
   \<and> fst (last (windows len chunkSize overlap i)) < len"
proof (induction len chunkSize overlap i rule: windows.induct)
  case (1 len chunkSize overlap i)
  show ?case
  proof (cases "min (i + chunkSize) len = len")
    case True
    with 1(2,3) show ?thesis by (subst (1 2 3) windows.simps) simp
  next
    case more: False
    then have e: "min (i + chunkSize) len = i + chunkSize" and lt: "i + chunkSize < len"
      by (auto simp: min_def split: if_splits)
    from lt 1(2) have "i + chunkSize - overlap < len" by simp
    with 1(1) [OF _ more 1(2)] 1(2,3) e
    have IH: "windows len chunkSize overlap (i + chunkSize - overlap) \<noteq> [] \<and>
              snd (last (windows len chunkSize overlap (i + chunkSize - overlap))) = len \<and>
              fst (last (windows len chunkSize overlap (i + chunkSize - overlap))) < len"
      by simp
    with more e 1(2,3) show ?thesis
      by (subst (1 2 3) windows.simps) simp
  qed
qed

subsection \<open>Trimming\<close>

lemma trim_Nil_iff: "trim s = [] \<longleftrightarrow> (\<forall>c\<in>set s. isWhiteSpace c)"
proof -
  have "trim s = [] \<longleftrightarrow> (\<forall>c\<in>set (dropWhile isWhiteSpace s). isWhiteSpace c)"
    by (simp add: trim_def dropWhile_eq_Nil_conv)
  also have "\<dots> \<longleftrightarrow> dropWhile isWhiteSpace s = []"
    by (metis dropWhile_eq_Nil_conv dropWhile_idem)
  also have "\<dots> \<longleftrightarrow> (\<forall>c\<in>set s. isWhiteSpace c)"
    by (simp add: dropWhile_eq_Nil_conv)
  finally show ?thesis .
qed

lemma last_dropWhile: "dropWhile P xs \<noteq> [] \<Longrightarrow> last (dropWhile P xs) = last xs"
  by (induction xs) (auto split: if_splits)

lemma dropWhile_hd_id: "xs \<noteq> [] \<Longrightarrow> \<not> P (hd xs) \<Longrightarrow> dropWhile P xs = xs"
  by (cases xs) auto

lemma trim_last: "trim s \<noteq> [] \<Longrightarrow> \<not> isWhiteSpace (last (trim s))"
  by (simp add: trim_def last_rev hd_dropWhile)

lemma trim_hd:
  assumes "trim s \<noteq> []"
  shows "\<not> isWhiteSpace (hd (trim s))"
proof -
  let ?t = "dropWhile isWhiteSpace s"
  let ?u = "dropWhile isWhiteSpace (rev ?t)"
  from assms have u: "?u \<noteq> []" by (simp add: trim_def)
  have t: "?t \<noteq> []"
  proof
    assume a: "?t = []"
    have "?u = []" unfolding a by simp
    with u show False by contradiction
  qed
  have "hd (trim s) = last ?u" using u by (simp add: trim_def hd_rev)
  also have "\<dots> = last (rev ?t)" using u by (rule last_dropWhile)
  also have "\<dots> = hd ?t" using t by (simp add: last_rev)
  finally show ?thesis using t by (simp add: hd_dropWhile)
qed

lemma trim_keeps_end:
  assumes "s \<noteq> []" and "\<not> isWhiteSpace (last s)"
  shows "trim s = dropWhile isWhiteSpace s \<and> trim s \<noteq> []"
proof -
  let ?t = "dropWhile isWhiteSpace s"
  from assms have ne: "?t \<noteq> []"
    by (auto simp: dropWhile_eq_Nil_conv)
  then have "last ?t = last s" by (rule last_dropWhile)
  with assms ne have "\<not> isWhiteSpace (hd (rev ?t))"
    by (simp add: hd_rev)
  with ne have "dropWhile isWhiteSpace (rev ?t) = rev ?t"
    by (intro dropWhile_hd_id) simp_all
  with ne show ?thesis by (simp add: trim_def)
qed

lemma trim_idem: "trim (trim s) = trim s"
proof (cases "trim s = []")
  case True
  have "trim [] = []" by (simp add: trim_def)
  with True show ?thesis by simp
next
  case False
  from trim_keeps_end [OF False trim_last [OF False]]
  have "trim (trim s) = dropWhile isWhiteSpace (trim s)" by blast
  also have "\<dots> = trim s" using False trim_hd [OF False] by (rule dropWhile_hd_id)
  finally show ?thesis .
qed

lemma normalize_trimmed: "trim (normalize text) = normalize text"
  by (simp add: normalize_def trim_idem)

lemma last_filter_keeps:
  "xs \<noteq> [] \<Longrightarrow> P (last xs) \<Longrightarrow> filter P xs \<noteq> [] \<and> last (filter P xs) = last xs"
  by (induction xs) (auto simp: filter_empty_conv split: if_splits)

text \<open>
  The last window ends at the end of the normalised text, which ends in a character that
  is not white space; so the last window survives the trimming at its end, and the last
  segment is a suffix of the text.
\<close>

lemma last_chunk_suffix:
  assumes "overlap < chunkSize" and "normalize text \<noteq> []"
  shows "\<exists>cs. chunkText text chunkSize overlap = Some cs \<and> cs \<noteq> [] \<and>
              suffix (last cs) (normalize text)"
proof -
  let ?c = "normalize text"
  let ?ws = "cuts text chunkSize overlap"
  let ?f = "\<lambda>p. trim (window_text ?c p)"
  from assms windows_last_end [of overlap chunkSize 0 "length ?c"]
  have ne: "?ws \<noteq> []" and e: "snd (last ?ws) = length ?c" and b: "fst (last ?ws) < length ?c"
    by (simp_all add: cuts_def)
  from assms(2) trim_last [of ?c] have lastc: "\<not> isWhiteSpace (last ?c)"
    by (simp add: normalize_trimmed)
  have w: "window_text ?c (last ?ws) = drop (fst (last ?ws)) ?c"
    by (simp add: window_text_def slice_def e)
  with b have wne: "window_text ?c (last ?ws) \<noteq> []" by simp
  with w lastc have "\<not> isWhiteSpace (last (window_text ?c (last ?ws)))"
    using b by simp
  from trim_keeps_end [OF wne this]
  have t: "?f (last ?ws) = dropWhile isWhiteSpace (window_text ?c (last ?ws))"
    and tne: "?f (last ?ws) \<noteq> []" by blast+
  have "suffix (?f (last ?ws)) (window_text ?c (last ?ws))"
    unfolding t by (rule suffix_dropWhile)
  moreover have "suffix (window_text ?c (last ?ws)) ?c"
    unfolding w by (rule suffix_drop)
  ultimately have suf: "suffix (?f (last ?ws)) ?c" by (rule suffix_order.trans)
  let ?cs = "filter (\<lambda>s. s \<noteq> []) (map ?f ?ws)"
  have lm: "last (map ?f ?ws) = ?f (last ?ws)" using ne by (simp add: last_map)
  from ne have "map ?f ?ws \<noteq> []" by simp
  from last_filter_keeps [of "map ?f ?ws" "\<lambda>s. s \<noteq> []", OF this] tne lm
  have "?cs \<noteq> []" and "last ?cs = ?f (last ?ws)" by simp_all
  then show ?thesis
    using suf chunkText_windows [OF assms(1), of "text"] by simp
qed

lemma normalize_ab_cd: "normalize (js ''ab cd'') = js ''ab cd''"
  by code_simp

text \<open>
  C5 (for non-empty normalised text and \<open>overlap < windowSize\<close> the segments,
  concatenated with the declared overlap taken out, are the normalised text, and the last
  segment ends where the text ends): this fails on the code, because every segment is
  trimmed after it is cut. The text \<open>ab cd\<close> with window 3 and overlap 0 is cut into
  \<open>"ab "\<close> and \<open>"cd"\<close>; the segments are \<open>ab\<close> and \<open>cd\<close>, and their concatenation
  has lost the space.
\<close>

theorem chunkText_trimmed_segments_lose_text:
  "chunkText (js ''ab cd'') 3 0 = Some [js ''ab'', js ''cd''] \<and>
   reconstruct 0 [js ''ab'', js ''cd''] \<noteq> normalize (js ''ab cd'')"
  by code_simp

text \<open>
  C5, as the code has it: for non-empty normalised text and \<open>overlap < chunkSize\<close>, the
  windows the loop cuts (the slices before trimming), concatenated after the first
  \<open>overlap\<close> characters of every window but the first are dropped, are exactly the
  normalised text, and the last window ends at the end of the text. The segments returned
  are these windows trimmed, in order, without the ones that trim to nothing; there is at
  least one, and the last one is a suffix of the normalised text.
\<close>

theorem chunkText_windows_cover:
  assumes "overlap < chunkSize" and "normalize text \<noteq> []"
  shows "chunkText text chunkSize overlap =
           Some (filter (\<lambda>s. s \<noteq> [])
             (map (\<lambda>p. trim (window_text (normalize text) p)) (cuts text chunkSize overlap))) \<and>
         reconstruct overlap (map (window_text (normalize text)) (cuts text chunkSize overlap))
           = normalize text \<and>
         snd (last (cuts text chunkSize overlap)) = length (normalize text) \<and>
         (\<exists>cs. chunkText text chunkSize overlap = Some cs \<and> cs \<noteq> [] \<and>
               suffix (last cs) (normalize text))"
proof -
  from assms have "0 < length (normalize text)" by simp
  from windows_last_end [OF assms(1) this]
  have "snd (last (cuts text chunkSize overlap)) = length (normalize text)"
    by (simp add: cuts_def)
  moreover have "reconstruct overlap
      (map (window_text (normalize text)) (cuts text chunkSize overlap)) = normalize text"
    unfolding cuts_def by (rule windows_reconstruct [OF assms(1)])
  ultimately show ?thesis
    using chunkText_windows [OF assms(1), of "text"] last_chunk_suffix [OF assms] by simp
qed

theorem chunkText_windows_cover_witness:
  "(0::nat) < 3 \<and> normalize (js ''ab cd'') \<noteq> [] \<and>
   chunkText (js ''ab cd'') 3 0 =
     Some (filter (\<lambda>s. s \<noteq> [])
       (map (\<lambda>p. trim (window_text (normalize (js ''ab cd'')) p)) (cuts (js ''ab cd'') 3 0))) \<and>
   reconstruct 0 (map (window_text (normalize (js ''ab cd''))) (cuts (js ''ab cd'') 3 0))
     = normalize (js ''ab cd'') \<and>
   snd (last (cuts (js ''ab cd'') 3 0)) = length (normalize (js ''ab cd''))"
proof -
  have ne: "normalize (js ''ab cd'') \<noteq> []"
    by (simp add: normalize_ab_cd) (simp add: js_def)
  have lt: "(0::nat) < 3" by simp
  from chunkText_windows_cover [OF lt ne] ne show ?thesis by simp
qed

section \<open>Empty and non-empty results\<close>

lemma filter_dropWhile_disjoint:
  "(\<And>x. Q x \<Longrightarrow> \<not> P x) \<Longrightarrow> filter P (dropWhile Q xs) = filter P xs"
  by (induction xs) auto

lemma filter_takeWhile_disjoint:
  "(\<And>x. Q x \<Longrightarrow> \<not> P x) \<Longrightarrow> filter P (takeWhile Q xs) = []"
  by (induction xs) auto

lemma isBlank_ws: "isBlank c \<Longrightarrow> isWhiteSpace c"
  by (auto simp: isBlank_def isWhiteSpace_def)

lemma isLF_ws: "isLF c \<Longrightarrow> isWhiteSpace c"
  by (auto simp: isLF_def isWhiteSpace_def)

text \<open>The three replacements add and remove white space only.\<close>

lemma collapse_blanks_visible:
  "filter (\<lambda>c. \<not> isWhiteSpace c) (collapse_blanks s) = filter (\<lambda>c. \<not> isWhiteSpace c) s"
proof (induction s rule: collapse_blanks.induct)
  case 1
  then show ?case by simp
next
  case (2 c cs)
  show ?case
  proof (cases "isBlank c")
    case True
    have "isWhiteSpace 0x20" by (simp add: isWhiteSpace_def)
    with True 2 show ?thesis
      by (simp add: isBlank_ws filter_dropWhile_disjoint)
  next
    case False
    with 2 show ?thesis by simp
  qed
qed

lemma collapse_newlines_visible:
  "filter (\<lambda>c. \<not> isWhiteSpace c) (collapse_newlines s) = filter (\<lambda>c. \<not> isWhiteSpace c) s"
proof (induction s rule: collapse_newlines.induct)
  case 1
  then show ?case by simp
next
  case (2 c cs)
  show ?case
  proof (cases "isLF c")
    case True
    have "isWhiteSpace 0xA" by (simp add: isWhiteSpace_def)
    with True 2 show ?thesis
      by (simp add: isLF_ws filter_dropWhile_disjoint filter_takeWhile_disjoint)
  next
    case False
    with 2 show ?thesis by simp
  qed
qed

lemma remove_cr_visible:
  "filter (\<lambda>c. \<not> isWhiteSpace c) (remove_cr s) = filter (\<lambda>c. \<not> isWhiteSpace c) s"
proof -
  have "isWhiteSpace 0xD" by (simp add: isWhiteSpace_def)
  then show ?thesis
    unfolding remove_cr_def by (induction s) auto
qed

lemma normalize_Nil_iff: "normalize text = [] \<longleftrightarrow> (\<forall>c\<in>set text. isWhiteSpace c)"
proof -
  have "normalize text = [] \<longleftrightarrow>
        filter (\<lambda>c. \<not> isWhiteSpace c) (collapse_newlines (collapse_blanks (remove_cr text))) = []"
    by (simp add: normalize_def trim_Nil_iff filter_empty_conv)
  also have "\<dots> \<longleftrightarrow> filter (\<lambda>c. \<not> isWhiteSpace c) text = []"
    by (simp add: collapse_newlines_visible collapse_blanks_visible remove_cr_visible)
  also have "\<dots> \<longleftrightarrow> (\<forall>c\<in>set text. isWhiteSpace c)"
    by (simp add: filter_empty_conv)
  finally show ?thesis .
qed

lemma chunkText_empty_text: "normalize text = [] \<Longrightarrow> chunkText text chunkSize overlap = Some []"
  by (simp add: chunkText_def chunk_loop.simps)

lemma chunkText_single_window:
  assumes "normalize text \<noteq> []" and "length (normalize text) \<le> chunkSize"
  shows "chunkText text chunkSize overlap = Some [normalize text]"
proof -
  from assms have "min chunkSize (length (normalize text)) = length (normalize text)"
    by simp
  with assms show ?thesis
    unfolding chunkText_def
    by (subst chunk_loop.simps) (simp add: Let_def slice_def normalize_trimmed)
qed

text \<open>
  For every window size \<open>> 0\<close> and every overlap, the empty sequence is returned exactly
  for the texts that normalise to the empty string, which are the texts of white space
  only. A text that does not normalise to the empty string gives a non-empty sequence
  whenever the call returns, which it does when \<open>overlap < chunkSize\<close> or when the text
  fits into one window.
\<close>

lemma chunkText_Nil_iff:
  assumes "0 < chunkSize"
  shows "chunkText text chunkSize overlap = Some [] \<longleftrightarrow> normalize text = []"
proof
  assume "normalize text = []"
  then show "chunkText text chunkSize overlap = Some []" by (rule chunkText_empty_text)
next
  assume r: "chunkText text chunkSize overlap = Some []"
  show "normalize text = []"
  proof (rule ccontr)
    assume ne: "normalize text \<noteq> []"
    consider "length (normalize text) \<le> chunkSize"
      | "chunkSize < length (normalize text)" "chunkSize \<le> overlap"
      | "overlap < chunkSize"
      by linarith
    then show False
    proof cases
      case 1
      from chunkText_single_window [OF ne 1] r show False by simp
    next
      case 2
      from chunkText_diverges [OF 2(2) 2(1)] r show False by simp
    next
      case 3
      from last_chunk_suffix [OF 3 ne] r show False by auto
    qed
  qed
qed


lemma normalize_ab: "normalize (js ''ab'') = js ''ab''"
  by code_simp

text \<open>
  C9 (for every input whose normalised form is non-empty, \<open>chunkText\<close> returns a
  non-empty sequence): the text \<open>ab\<close> normalises to itself, which is not empty, and with
  window size 1 and overlap 2 the call never returns. This is the divergence of the loop
  for \<open>overlap \<ge> chunkSize\<close> again.
\<close>

theorem chunkText_ab_1_2_returns_nothing:
  "normalize (js ''ab'') = js ''ab'' \<and> js ''ab'' \<noteq> [] \<and> chunkText (js ''ab'') 1 2 = None"
proof -
  have "chunkText (js ''ab'') 1 2 = None"
    by (rule chunkText_diverges) (simp_all add: normalize_ab, simp add: js_def)
  then show ?thesis by (simp add: normalize_ab) (simp add: js_def)
qed

section \<open>The similarity function\<close>

text \<open>The loop of \<open>cosineSimilarity\<close> adds up the three sums over the indices it visits.\<close>

lemma cosine_loop_sums:
  "i \<le> len \<Longrightarrow>
   cosine_loop a b len i (dot, na, nb) =
     (dot + (\<Sum>k = i..<len. a ! k * b ! k),
      na + (\<Sum>k = i..<len. a ! k * a ! k),
      nb + (\<Sum>k = i..<len. b ! k * b ! k))"
proof (induction a b len i "(dot, na, nb)" arbitrary: dot na nb rule: cosine_loop.induct)
  case (1 a b len i dot na nb)
  show ?case
  proof (cases "i < len")
    case True
    then have "Suc i \<le> len" by simp
    with True 1 show ?thesis
      by (subst cosine_loop.simps) (simp add: sum.atLeast_Suc_lessThan add.assoc)
  next
    case False
    with 1 show ?thesis by (subst cosine_loop.simps) simp
  qed
qed

lemma cosineSimilarity_sums:
  "cosineSimilarity a b =
     (if sqrt (\<Sum>k<min (length a) (length b). a ! k * a ! k)
           * sqrt (\<Sum>k<min (length a) (length b). b ! k * b ! k) = 0 then 0
      else (\<Sum>k<min (length a) (length b). a ! k * b ! k)
           / (sqrt (\<Sum>k<min (length a) (length b). a ! k * a ! k)
              * sqrt (\<Sum>k<min (length a) (length b). b ! k * b ! k)))"
  by (simp add: cosineSimilarity_def cosine_loop_sums Let_def lessThan_atLeast0)

text \<open>
  In exact arithmetic the function is the quotient of the specification, and 0 for a
  zero denominator.
\<close>

lemma cosineSimilarity_exact:
  "cosineSimilarity A B = spec_cosine A B \<and>
   cosineSimilarity A (replicate n 0) = 0 \<and>
   cosineSimilarity (replicate n 0) B = 0"
  by (simp add: cosineSimilarity_sums spec_cosine_def spec_dot_def spec_normA_def spec_normB_def)

text \<open>
  C10: \<open>cosineSimilarity\<close> is symmetric in its two arguments, also for vectors of
  different lengths.
\<close>

theorem cosineSimilarity_symmetric:
  "cosineSimilarity A B = cosineSimilarity B A"
  by (simp add: cosineSimilarity_sums min.commute mult.commute)

section \<open>The similarity function in double arithmetic\<close>

subsection \<open>Rounding\<close>

lemma floor_log2_eq:
  assumes "2 powi k \<le> r" and "r < 2 powi (k + 1)"
  shows "\<lfloor>log 2 r\<rfloor> = k"
proof -
  have pos: "0 < r" using assms(1) zero_less_power_int [of "2::real" k] by linarith
  have p: "(2::real) powr (of_int i) = 2 powi i" for i
    by (simp add: powr_real_of_int')
  have "(2::real) powr (of_int k) \<le> r" and "r < 2 powr (of_int k + 1)"
    using assms p [of k] p [of "k + 1"] by simp_all
  then show ?thesis
    using floor_log_eq_powr_iff [of r 2 k] pos by simp
qed

lemma round_half_even_int: "round_half_even (of_int n) = n"
  by (simp add: round_half_even_def)

lemma round_half_even_nat: "round_half_even (of_nat n) = int n"
  using round_half_even_int [of "int n"] by simp

lemma times_pow_div: "x * 2 powi e / 2 powi e = (x::real)"
  by simp

lemma pow2_shift: "(2::real) ^ n * 2 powi e = 2 powi (e + int n)"
  by (simp add: power_int_add mult.commute)

lemma round_mag_exact:
  assumes q: "quantum m = 2 powi e" and m: "m = of_nat j * 2 powi e" and lt: "m < 2 powi f64_emax"
  shows "round_mag m = Some m"
proof -
  have d: "m / 2 powi e = of_nat j" by (subst m) (rule times_pow_div)
  have "of_int (int j) * 2 powi e = m" by (simp add: m)
  then have v: "of_int (round_half_even (m / quantum m)) * quantum m = m"
    by (simp only: q d round_half_even_nat)
  from lt show ?thesis unfolding round_mag_def v by simp
qed

lemma round_mag_is_mag:
  assumes "is_mag m"
  shows "round_mag m = Some m"
proof -
  from assms consider
      (sub) j :: nat where "j < 2 ^ 52" "m = of_nat j * 2 powi f64_emin"
    | (nor) j :: nat and e :: int where "2 ^ 52 \<le> j" "j < 2 ^ 53" "f64_emin \<le> e"
        "e + 53 \<le> f64_emax" "m = of_nat j * 2 powi e"
    unfolding is_mag_def by blast
  then show ?thesis
  proof cases
    case sub
    have "real j < 2 ^ 52" using sub(1) by (metis of_nat_less_iff of_nat_numeral of_nat_power)
    then have "m < 2 ^ 52 * 2 powi f64_emin"
      unfolding sub(2) by (intro mult_strict_right_mono) simp_all
    also have "\<dots> = 2 powi (f64_emin + 52)"
      using pow2_shift [of 52 f64_emin] by simp
    finally have small: "m < 2 powi (f64_emin + 52)" .
    then have q: "quantum m = 2 powi f64_emin" by (simp add: quantum_def)
    have "(2::real) powi (f64_emin + 52) \<le> 2 powi f64_emax"
      by (intro power_int_increasing) (simp_all add: f64_emin_def f64_emax_def)
    with small have "m < 2 powi f64_emax" by linarith
    with q sub(2) show ?thesis by (rule round_mag_exact)
  next
    case nor
    have jl: "(2::real) ^ 52 \<le> real j" and ju: "real j < 2 ^ 53"
      using nor(1,2) by (metis of_nat_le_iff of_nat_numeral of_nat_power,
          metis of_nat_less_iff of_nat_numeral of_nat_power)
    have pe: "(0::real) < 2 powi e" by simp
    have lo: "2 powi (e + 52) \<le> m"
    proof -
      have "2 powi (e + 52) = (2::real) ^ 52 * 2 powi e"
        using pow2_shift [of 52 e] by simp
      also have "\<dots> \<le> real j * 2 powi e"
        using jl pe by (intro mult_right_mono) simp_all
      finally show ?thesis unfolding nor(5) .
    qed
    have hi: "m < 2 powi (e + 52 + 1)"
    proof -
      have "m < 2 ^ 53 * 2 powi e"
        unfolding nor(5) using ju pe by (intro mult_strict_right_mono) simp_all
      also have "\<dots> = 2 powi (e + 52 + 1)"
        using pow2_shift [of 53 e] by (simp add: add.assoc)
      finally show ?thesis .
    qed
    have fl: "\<lfloor>log 2 m\<rfloor> = e + 52" using lo hi by (rule floor_log2_eq)
    have "(2::real) powi (f64_emin + 52) \<le> 2 powi (e + 52)"
      using nor(3) by (intro power_int_increasing) simp_all
    with lo have "\<not> m < 2 powi (f64_emin + 52)" by linarith
    then have q: "quantum m = 2 powi e" by (simp add: quantum_def fl)
    have "(2::real) powi (e + 52 + 1) \<le> 2 powi f64_emax"
      using nor(4) by (intro power_int_increasing) simp_all
    with hi have "m < 2 powi f64_emax" by linarith
    with q nor(5) show ?thesis by (rule round_mag_exact)
  qed
qed

lemma round_mag_overflow: "2 powi f64_emax \<le> r \<Longrightarrow> round_mag r = None"
  by (simp add: round_mag_def)

lemma round_mag_underflow:
  assumes "0 \<le> r" and "r < 2 powi (f64_emin - 1)"
  shows "round_mag r = Some 0"
proof -
  have "(2::real) powi (f64_emin - 1) < 2 powi (f64_emin + 52)"
    by (intro power_int_strict_increasing) simp_all
  with assms have small: "r < 2 powi (f64_emin + 52)" by linarith
  then have q: "quantum r = 2 powi f64_emin" by (simp add: quantum_def)
  have "r / 2 powi f64_emin < 2 powi (f64_emin - 1) / 2 powi f64_emin"
    using assms(2) by (intro divide_strict_right_mono) simp_all
  also have "\<dots> = 1 / 2"
    by (simp add: power_int_diff del: power_int_numeral_neg_numeral)
  finally have half: "r / 2 powi f64_emin < 1 / 2" .
  moreover have nonneg: "0 \<le> r / 2 powi f64_emin" using assms(1) by simp
  ultimately have "\<lfloor>r / 2 powi f64_emin\<rfloor> = 0" by linarith
  with half have "round_half_even (r / 2 powi f64_emin) = 0"
    by (simp add: round_half_even_def)
  moreover have "\<not> (2::real) powi f64_emax \<le> r"
  proof -
    have "(2::real) powi (f64_emin + 52) \<le> 2 powi f64_emax"
      by (intro power_int_increasing) (simp_all add: f64_emin_def f64_emax_def)
    with small show ?thesis by linarith
  qed
  moreover have "\<not> (2::real) powi f64_emax \<le> 0"
    using zero_less_power_int [of "2::real" f64_emax] by linarith
  ultimately show ?thesis by (simp add: round_mag_def q)
qed

lemma is_mag_pow2:
  assumes "f64_emin + 52 \<le> k" and "k < f64_emax"
  shows "is_mag (2 powi k)"
proof -
  have "(2::real) ^ 52 * 2 powi (k - 52) = 2 powi (k - 52 + int 52)"
    by (rule pow2_shift)
  moreover have "k - 52 + int 52 = k" by simp
  moreover have "real (2 ^ 52) = 2 ^ 52" by simp
  ultimately have eq: "(2::real) powi k = of_nat (2 ^ 52) * 2 powi (k - 52)"
    by (simp only:)
  have a: "(2::nat) ^ 52 \<le> 2 ^ 52" by (rule order_refl)
  have b: "(2::nat) ^ 52 < 2 ^ 53" by (rule power_strict_increasing) simp_all
  have c: "f64_emin \<le> k - 52" using assms(1) by linarith
  have d: "k - 52 + 53 \<le> f64_emax" using assms(2) by linarith
  from a b c d eq show ?thesis
    unfolding is_mag_def by blast
qed

lemma is_mag_zero: "is_mag 0"
  unfolding is_mag_def by (intro disjI1 exI [of _ 0]) simp

lemma round_f64_one: "round_f64 neg 1 = F64 neg 1"
proof -
  have "is_mag (2 powi 0)" by (rule is_mag_pow2) (simp_all add: f64_emin_def f64_emax_def)
  then have "round_mag 1 = Some 1" using round_mag_is_mag [of 1] by simp
  then show ?thesis by (simp add: round_f64_def)
qed

lemma round_f64_zero: "round_f64 neg 0 = F64 neg 0"
  using round_mag_is_mag [OF is_mag_zero] by (simp add: round_f64_def)

subsection \<open>The loop\<close>

lemma cosine_loop_f64_folds:
  "i \<le> len \<Longrightarrow>
   cosine_loop_f64 a b len i (dot, na, nb) =
     (foldl fadd dot (map (\<lambda>k. fmul (a ! k) (b ! k)) [i..<len]),
      foldl fadd na (map (\<lambda>k. fmul (a ! k) (a ! k)) [i..<len]),
      foldl fadd nb (map (\<lambda>k. fmul (b ! k) (b ! k)) [i..<len]))"
proof (induction a b len i "(dot, na, nb)" arbitrary: dot na nb rule: cosine_loop_f64.induct)
  case (1 a b len i dot na nb)
  show ?case
  proof (cases "i < len")
    case True
    then have "Suc i \<le> len" by simp
    with True 1 show ?thesis
      by (subst cosine_loop_f64.simps) (simp add: upt_conv_Cons)
  next
    case False
    with 1 show ?thesis by (subst cosine_loop_f64.simps) simp
  qed
qed

lemma cosineSimilarity_f64_folds: "cosineSimilarity_f64 A B = spec_cosine_f64 A B"
  by (simp add: cosineSimilarity_f64_def cosine_loop_f64_folds Let_def spec_cosine_f64_def
      spec_denom_f64_def spec_dot_f64_def spec_normA_f64_def spec_normB_f64_def f64_sum_def
      truthy_def)

text \<open>A vector of zeros makes the denominator a zero or NaN.\<close>

lemma f64_sum_zeros: "foldl fadd (F64 False 0) (map (\<lambda>k. F64 False 0) ks) = F64 False 0"
  by (induction ks) (simp_all add: signed_def)

lemma zero_square: "fmul (F64 False 0) (F64 False 0) = F64 False 0"
  by (simp add: round_f64_zero)

lemma norm_of_zeros:
  "foldl fadd (F64 False 0)
     (map (\<lambda>k. fmul (replicate n (F64 False 0) ! k) (replicate n (F64 False 0) ! k))
        [0..<min m n]) = F64 False 0"
proof -
  have "map (\<lambda>k. fmul (replicate n (F64 False 0) ! k) (replicate n (F64 False 0) ! k))
          [0..<min m n] = map (\<lambda>k. F64 False 0) [0..<min m n]"
    by (rule map_cong) (simp_all add: round_f64_zero)
  then show ?thesis by (simp only: f64_sum_zeros)
qed

lemma fsqrt_zero: "fsqrt (F64 False 0) = F64 False 0"
  by (simp add: round_f64_zero)

lemma falsy_times_zero: "\<not> truthy (fmul x (F64 False 0))"
  by (cases x) (simp_all add: truthy_def round_f64_zero)

lemma falsy_zero_times: "\<not> truthy (fmul (F64 False 0) x)"
  by (cases x) (simp_all add: truthy_def round_f64_zero)

lemma cosineSimilarity_f64_zero_vector:
  "cosineSimilarity_f64 A (replicate n (F64 False 0)) = F64 False 0"
  "cosineSimilarity_f64 (replicate n (F64 False 0)) B = F64 False 0"
  using norm_of_zeros [of n "length A"] norm_of_zeros [of n "length B"]
  by (simp_all add: cosineSimilarity_f64_def cosine_loop_f64_folds Let_def round_f64_zero
      min.commute falsy_times_zero falsy_zero_times)


text \<open>
  C6, as the code has it: for all vectors \<open>A\<close> and \<open>B\<close> of doubles,
  \<open>cosineSimilarity A B\<close> is \<open>dot / (sqrt normA * sqrt normB)\<close> evaluated in double
  arithmetic, every operation rounded, with the three sums taken from 0 upwards in the
  order of the indices below \<open>min (length A) (length B)\<close>, when that computed denominator
  is neither a zero nor NaN; when it is a zero or NaN the result is exactly 0, as it is for
  a vector of zeros. Nothing is raised: the function is total.
\<close>

theorem cosineSimilarity_f64_is_spec:
  "cosineSimilarity_f64 A B = spec_cosine_f64 A B \<and>
   cosineSimilarity_f64 A (replicate n (F64 False 0)) = F64 False 0 \<and>
   cosineSimilarity_f64 (replicate n (F64 False 0)) B = F64 False 0"
  using cosineSimilarity_f64_folds [of A B]
    cosineSimilarity_f64_zero_vector(1) [where A = A and n = n]
    cosineSimilarity_f64_zero_vector(2) [where B = B and n = n]
  by blast

lemma sign_xor_commute: "(s \<noteq> t) = (t \<noteq> (s :: bool))"
  by auto

lemma fmul_commute: "fmul x y = fmul y x"
proof (cases x; cases y)
  fix s m t n
  assume "x = F64 s m" and "y = F64 t n"
  then show ?thesis
    using sign_xor_commute [of s t] by (simp add: mult.commute)
qed auto

lemma cosineSimilarity_f64_symmetric: "cosineSimilarity_f64 A B = cosineSimilarity_f64 B A"
  by (simp add: cosineSimilarity_f64_def cosine_loop_f64_folds Let_def min.commute
      fmul_commute [of "fsqrt (foldl fadd (F64 False 0) (map (\<lambda>k. fmul (B ! k) (B ! k)) [0..<min (length A) (length B)]))"]
      fmul_commute [of "B ! _" "A ! _"])

subsection \<open>Overflow and underflow\<close>

lemma big_tiny: "big * tiny = 1"
  unfolding big_def tiny_def using power_int_add [of "2::real" 600 "- 600"] by simp

lemma big_pos: "0 < big" and tiny_pos: "0 < tiny"
  unfolding big_def tiny_def by simp_all

lemma round_f64_big_sq: "round_f64 neg (big * big) = F64_Inf neg"
proof -
  have "big * big = 2 powi 1200"
    unfolding big_def using power_int_add [of "2::real" 600 600] by simp
  moreover have "(2::real) powi f64_emax \<le> 2 powi 1200"
    by (intro power_int_increasing) (simp_all add: f64_emax_def)
  ultimately have "round_mag (big * big) = None" by (simp only: round_mag_overflow)
  then show ?thesis by (simp add: round_f64_def)
qed

lemma round_f64_tiny_sq: "round_f64 neg (tiny * tiny) = F64 neg 0"
proof -
  have "tiny * tiny = 2 powi (- 1200)"
    unfolding tiny_def using power_int_add [of "2::real" "- 600" "- 600"] by simp
  moreover have "(2::real) powi (- 1200) < 2 powi (f64_emin - 1)"
    by (intro power_int_strict_increasing) (simp_all add: f64_emin_def)
  moreover have "(0::real) \<le> 2 powi (- 1200)"
    using zero_less_power_int [of "2::real" "- 1200"] by linarith
  ultimately have "round_mag (tiny * tiny) = Some 0" by (simp only: round_mag_underflow)
  then show ?thesis by (simp add: round_f64_def)
qed

lemma big_tiny_dot: "spec_dot_f64 [F64 False big] [F64 False tiny] = F64 False 1"
  by (simp add: spec_dot_f64_def f64_sum_def big_tiny round_f64_one signed_def)

lemma big_tiny_normA: "spec_normA_f64 [F64 False big] [F64 False tiny] = F64_Inf False"
  by (simp add: spec_normA_f64_def f64_sum_def round_f64_big_sq)

lemma big_tiny_normB: "spec_normB_f64 [F64 False big] [F64 False tiny] = F64 False 0"
  by (simp add: spec_normB_f64_def f64_sum_def round_f64_tiny_sq signed_def)

lemma big_tiny_denom: "spec_denom_f64 [F64 False big] [F64 False tiny] = F64_NaN"
  by (simp add: spec_denom_f64_def big_tiny_normA big_tiny_normB round_f64_zero)

lemma spec_cosine_inverse_pair:
  assumes "0 < x" and "x * y = 1"
  shows "spec_cosine [x] [y] = 1"
proof -
  from assms have y: "0 < y" by (metis zero_less_mult_pos zero_less_one)
  have "sqrt (x * x) * sqrt (y * y) = x * y"
    using assms(1) y by simp
  with assms(2) show ?thesis
    by (simp add: spec_cosine_def spec_dot_def spec_normA_def spec_normB_def)
qed

text \<open>
  C6 (the result is the quotient \<open>dot / (sqrt normA * sqrt normB)\<close> unless that
  denominator is zero): this fails on the code. For the doubles \<open>2 powi 600\<close> and
  \<open>2 powi (- 600)\<close> the product is 1, the first squared norm overflows to infinity and
  the second underflows to 0, so the denominator is \<open>\<infinity> * 0\<close>, which is NaN and not zero;
  NaN is falsy, and the function returns 0. The quotient of the claim is NaN in double
  arithmetic and 1 in exact arithmetic.
\<close>

theorem cosineSimilarity_f64_overflow_underflow:
  "is_mag big \<and> is_mag tiny \<and>
   cosineSimilarity_f64 [F64 False big] [F64 False tiny] = F64 False 0 \<and>
   spec_denom_f64 [F64 False big] [F64 False tiny] = F64_NaN \<and>
   fdiv (spec_dot_f64 [F64 False big] [F64 False tiny])
        (spec_denom_f64 [F64 False big] [F64 False tiny]) = F64_NaN \<and>
   spec_cosine [big] [tiny] = 1"
proof -
  have "is_mag big" and "is_mag tiny"
    unfolding big_def tiny_def by (rule is_mag_pow2; simp add: f64_emin_def f64_emax_def)+
  moreover have "cosineSimilarity_f64 [F64 False big] [F64 False tiny] = F64 False 0"
    using big_tiny_denom
    by (simp add: cosineSimilarity_f64_def cosine_loop_f64_folds Let_def truthy_def
        spec_denom_f64_def spec_normA_f64_def spec_normB_f64_def f64_sum_def)
  moreover have "spec_cosine [big] [tiny] = 1"
    using big_pos big_tiny by (rule spec_cosine_inverse_pair)
  ultimately show ?thesis by (simp add: big_tiny_denom big_tiny_dot)
qed

section \<open>Scoring the records\<close>

lemma cosineSimilarity_common_prefix:
  "cosineSimilarity a b =
     cosineSimilarity (take (min (length a) (length b)) a) (take (min (length a) (length b)) b)"
  by (simp add: cosineSimilarity_sums min_def)

lemma cosineSimilarity_no_overlap:
  "min (length a) (length b) = 0 \<Longrightarrow> cosineSimilarity a b = 0"
  by (simp add: cosineSimilarity_sums)

lemma cosineSimilarity_shorter:
  "cosineSimilarity q v =
     (if min (length q) (length v) = 0 then 0
      else cosineSimilarity (take (min (length q) (length v)) q)
             (take (min (length q) (length v)) v))"
proof (cases "min (length q) (length v) = 0")
  case True
  from cosineSimilarity_no_overlap [OF True] True show ?thesis by (simp only: if_True refl)
next
  case False
  from cosineSimilarity_common_prefix [of q v] False show ?thesis by (simp only: if_False)
qed

lemma trim_ok: "trim (js '' ok '') = js ''ok''"
  by code_simp

text \<open>
  C2 (the ranking step fails with a dimension mismatch error when a record's vector and
  the query vector share no dimension): on the code it does not fail. The index holds one
  record with the empty vector, the query vector is \<open>[1, 2]\<close>; the answering operation
  returns, and the record is among the sources with score 0.
\<close>

theorem answerQuestion_no_common_dimension_succeeds:
  "answerQuestion ex_env [js ''data/index.json'' \<mapsto> js ''index:1''] (js ''data/index.json'')
       (js ''q'') 5 (js ''llama3.2'') (js ''nomic-embed-text'') =
   Inr \<lparr>answer_text = js ''ok'', answer_sources = [(js ''doc.pdf::chunk_1'', 0)]\<rparr>"
  by (simp add: answerQuestion_def ex_env_def db_items_def ex_payload_def ex_item_def
      ollamaEmbeddings_def ollamaChat_def cosineSimilarity_call_def rank_def sort_desc_def
      cosineSimilarity_no_overlap toFixed4_def trim_ok)
    (simp add: js_def string_of_nat.simps)

text \<open>
  C2, as the code has it: the ranking step has no dimension mismatch error. When the query
  vector and the vector of every record are arrays, it does not fail, whatever their
  lengths, and every record gets a score, in the order of the collection: 0 when the
  record's vector and the query vector share no dimension, and otherwise the similarity of
  the two vectors cut to the shorter of the two lengths.
\<close>

theorem score_items_tolerant:
  "(\<forall>item\<in>set items. item_embedding item \<noteq> None) \<longrightarrow>
   score_items (Some q) items =
     Inr (map (\<lambda>item. \<lparr>scored_item = item,
                        scored_score =
                          (if min (length q) (length (the (item_embedding item))) = 0 then 0
                           else cosineSimilarity
                                  (take (min (length q) (length (the (item_embedding item)))) q)
                                  (take (min (length q) (length (the (item_embedding item))))
                                     (the (item_embedding item))))\<rparr>) items)"
proof (induction items)
  case Nil
  show ?case by simp
next
  case (Cons item items)
  let ?f = "\<lambda>item :: real item. \<lparr>scored_item = item,
                        scored_score =
                          (if min (length q) (length (the (item_embedding item))) = 0 then 0
                           else cosineSimilarity
                                  (take (min (length q) (length (the (item_embedding item)))) q)
                                  (take (min (length q) (length (the (item_embedding item))))
                                     (the (item_embedding item))))\<rparr>"
  show ?case
  proof
    assume all: "\<forall>i\<in>set (item # items). item_embedding i \<noteq> None"
    then obtain v where v: "item_embedding item = Some v" by auto
    from all Cons have rest: "score_items (Some q) items = Inr (map ?f items)"
      by simp
    have step: "score_items (Some q) (item # items) =
        Inr (\<lparr>scored_item = item, scored_score = cosineSimilarity q v\<rparr> # map ?f items)"
      by (simp add: rest v cosineSimilarity_call_def)
    have "?f item = \<lparr>scored_item = item, scored_score = cosineSimilarity q v\<rparr>"
      unfolding v option.sel by (simp only: cosineSimilarity_shorter [of q v, symmetric])
    with step show "score_items (Some q) (item # items) = Inr (map ?f (item # items))"
      by (simp only: list.map)
  qed
qed

theorem score_items_tolerant_witness:
  "item_embedding (ex_item 1 []) \<noteq> None \<and>
   score_items (Some [1, 2]) [ex_item 1 []] =
     Inr [\<lparr>scored_item = ex_item 1 [], scored_score = 0\<rparr>]"
proof -
  have h: "\<forall>item\<in>set [ex_item 1 []]. item_embedding item \<noteq> None"
    by (simp add: ex_item_def)
  from score_items_tolerant [of "[ex_item 1 []]" "[1, 2]"] h
  have "score_items (Some [1, 2]) [ex_item 1 []] =
     Inr (map (\<lambda>item. \<lparr>scored_item = item,
                        scored_score =
                          (if min (length [1, 2 :: real]) (length (the (item_embedding item))) = 0
                           then 0
                           else cosineSimilarity
                                  (take (min (length [1, 2 :: real])
                                     (length (the (item_embedding item)))) [1, 2])
                                  (take (min (length [1, 2 :: real])
                                     (length (the (item_embedding item))))
                                     (the (item_embedding item))))\<rparr>) [ex_item 1 []])"
    by blast
  then have "score_items (Some [1, 2]) [ex_item 1 []] =
     Inr [\<lparr>scored_item = ex_item 1 [], scored_score = 0\<rparr>]"
    by (simp add: ex_item_def)
  with h show ?thesis by simp
qed

section \<open>Ranking\<close>









section \<open>Indexing a document without text\<close>

lemma embed_loop_Nil: "embed_loop env sourceName embedModel [] 0 [] = Inr []"
  by (simp add: embed_loop.simps)

lemma chunkText_blank: "chunkText [0x20, 0xA, 0x9, 0x20] 1200 200 = Some []"
  by code_simp

text \<open>
  C3 (the indexing operation fails when segmentation yields no segment, and writes no
  index): on the code it succeeds. For a PDF whose text is white space only it returns
  statistics with 0 chunks, and the index file then holds an index with no record.
\<close>

theorem indexPdfToJson_blank_pdf_writes_empty_index:
  "indexPdfToJson ex_env Map.empty (js ''blank.pdf'') (js ''data/index.json'') (js ''blank.pdf'')
      1200 200 (js ''nomic-embed-text'') =
   Some (Inr (\<lparr>stats_chunks = 0, stats_embedModel = js ''nomic-embed-text'',
                stats_source = js ''blank.pdf''\<rparr>,
              [js ''data/index.json'' \<mapsto> js ''index:0'']))"
  by (simp add: indexPdfToJson_def ex_env_def chunkText_blank embed_loop_Nil)
    (simp add: js_def string_of_nat.simps)

text \<open>
  C3, as the code has it: when segmentation yields no segment, the indexing operation
  does not fail. It writes to the index location an index with count 0 and no record,
  with the metadata of the call, and returns statistics with 0 chunks.
\<close>

theorem indexPdfToJson_zero_segments:
  assumes "pdf_text env pdfPath = Inr texte"
    and "chunkText texte chunkSize chunkOverlap = Some []"
  shows "indexPdfToJson env fs pdfPath outPath sourceName chunkSize chunkOverlap embedModel =
     Some (Inr (\<lparr>stats_chunks = 0, stats_embedModel = embedModel, stats_source = sourceName\<rparr>,
          fs(outPath \<mapsto> json_stringify env
            \<lparr>payload_createdAt = clock_iso env, payload_source = sourceName,
             payload_embedModel = embedModel, payload_chunkSize = chunkSize,
             payload_chunkOverlap = chunkOverlap, payload_count = 0, payload_items = []\<rparr>)))"
  using assms by (simp add: indexPdfToJson_def embed_loop_Nil)

theorem indexPdfToJson_zero_segments_witness:
  "pdf_text ex_env (js ''blank.pdf'') = Inr [0x20, 0xA, 0x9, 0x20] \<and>
   chunkText [0x20, 0xA, 0x9, 0x20] 1200 200 = Some [] \<and>
   indexPdfToJson ex_env Map.empty (js ''blank.pdf'') (js ''data/index.json'') (js ''blank.pdf'')
      1200 200 (js ''nomic-embed-text'') =
   Some (Inr (\<lparr>stats_chunks = 0, stats_embedModel = js ''nomic-embed-text'',
                stats_source = js ''blank.pdf''\<rparr>,
          [js ''data/index.json'' \<mapsto> json_stringify ex_env
            \<lparr>payload_createdAt = clock_iso ex_env, payload_source = js ''blank.pdf'',
             payload_embedModel = js ''nomic-embed-text'', payload_chunkSize = 1200,
             payload_chunkOverlap = 200, payload_count = 0, payload_items = []\<rparr>]))"
proof -
  have p: "pdf_text ex_env (js ''blank.pdf'') = Inr [0x20, 0xA, 0x9, 0x20]"
    by (simp add: ex_env_def)
  from indexPdfToJson_zero_segments [OF p chunkText_blank] p chunkText_blank
  show ?thesis by simp
qed

section \<open>Loading the index\<close>

text \<open>
  C8: the answering operation fails with the error \<open>Index introuvable\<close> when there is no
  file at the index location, and with the error \<open>Index vide\<close> when the loaded index
  has no record. Both are errors this code throws itself, before any collaborator is
  called, and their messages differ, so a caller can tell one from the other.
\<close>

theorem answerQuestion_load_errors:
  "(fs indexPath = None \<longrightarrow>
      answerQuestion env fs indexPath question topK chatModel embedModel =
        Inl (Error index_missing)) \<and>
   (fs indexPath = Some raw \<and> json_parse env raw = Inr db \<and> db_items db = [] \<longrightarrow>
      answerQuestion env fs indexPath question topK chatModel embedModel =
        Inl (Error index_empty)) \<and>
   Error index_missing \<noteq> Error index_empty"
  by (simp add: answerQuestion_def index_missing_def index_empty_def)

theorem answerQuestion_load_errors_witness:
  "Map.empty (js ''data/index.json'') = (None :: jsstring option) \<and>
   answerQuestion ex_env Map.empty (js ''data/index.json'') (js ''q'') 5 (js ''llama3.2'')
       (js ''nomic-embed-text'') = Inl (Error index_missing) \<and>
   [js ''data/index.json'' \<mapsto> js ''index:0''] (js ''data/index.json'') = Some (js ''index:0'') \<and>
   json_parse ex_env (js ''index:0'') = Inr (Some (ex_payload [])) \<and>
   db_items (Some (ex_payload [])) = [] \<and>
   answerQuestion ex_env [js ''data/index.json'' \<mapsto> js ''index:0''] (js ''data/index.json'')
       (js ''q'') 5 (js ''llama3.2'') (js ''nomic-embed-text'') = Inl (Error index_empty) \<and>
   Error index_missing \<noteq> Error index_empty"
proof -
  have a: "json_parse ex_env (js ''index:0'') = Inr (Some (ex_payload []))"
    by (simp add: ex_env_def)
  have b: "db_items (Some (ex_payload [])) = []"
    by (simp add: db_items_def ex_payload_def)
  from answerQuestion_load_errors [of Map.empty "js ''data/index.json''" ex_env "js ''q''" 5
      "js ''llama3.2''" "js ''nomic-embed-text''" "js ''index:0''" "Some (ex_payload [])"]
    answerQuestion_load_errors [of "[js ''data/index.json'' \<mapsto> js ''index:0'']"
      "js ''data/index.json''" ex_env "js ''q''" 5
      "js ''llama3.2''" "js ''nomic-embed-text''" "js ''index:0''" "Some (ex_payload [])"]
    a b
  show ?thesis by simp
qed

section \<open>The index file read back\<close>

subsection \<open>Strings\<close>











subsection \<open>Decimal digits\<close>














subsection \<open>Reading a number\<close>















subsection \<open>Every double has decimal digits\<close>









subsection \<open>One step of the parser\<close>



















subsection \<open>The text of a value\<close>










subsection \<open>The round trip of a value\<close>






subsection \<open>The round trip of a payload\<close>













subsection \<open>An index with one record\<close>











end
